theory Spec2Isabelle
  imports Complex_Main "HOL-Library.Word"
begin

section \<open>The user-facing explain of the optimizer (explain.h)\<close>

text \<open>
  \<^verbatim>\<open>UserFacingExplain\<close> turns a physical plan (an ABT) and the map from plan nodes to
  their properties into a BSON document. This theory embeds the class: the tree, the
  property map, the document builder, the handlers \<^verbatim>\<open>walk\<close>, and the three entry points
  \<^verbatim>\<open>isEOFPlan\<close>, \<^verbatim>\<open>generateEOFPlan\<close> and \<^verbatim>\<open>explain\<close>.
\<close>

subsection \<open>Data\<close>

text \<open>
  The property map \<^verbatim>\<open>_nodeMap\<close> is keyed by the address of a node (\<^verbatim>\<open>_nodeMap.find(&node)\<close>),
  so every plan node of the model carries its address. Expressions have no identity.
\<close>

type_synonym addr = nat

datatype ScanOrder = Forward | Reverse | Random

text \<open>
  Modelled from the spec: the value held by a \<^verbatim>\<open>Constant\<close> expression (its type is
  declared in value.h, outside explain.h). The spec only distinguishes the
  "missing/nothing" sentinel from every other value; two constants are equal when their
  values are.
\<close>

datatype SbeValue = Nothing | Null | Boolean bool | NumberInt64 "64 word" | StringValue string

text \<open>
  The ABT is one sum type over expressions and plan nodes. The variants that explain.h
  names are constructors of their own, with the children in the order the handlers
  receive them; every other variant is \<open>OtherExpr\<close> (an expression) or \<open>OtherNode\<close> (a plan
  node, which has an address), with a tag telling the variants apart.
\<close>

datatype ABT =
    Constant SbeValue
  | OtherExpr nat "ABT list"
  | RootNode addr ABT ABT
      \<comment> \<open>address, child, references\<close>
  | FilterNode addr ABT ABT
      \<comment> \<open>address, child, filter expression\<close>
  | EvaluationNode addr ABT string ABT
      \<comment> \<open>address, child, and the binder: projection name and projection\<close>
  | PhysicalScanNode addr ABT ScanOrder
      \<comment> \<open>address, binder, scan order\<close>
  | LimitSkipNode addr "64 word" "64 word" ABT
      \<comment> \<open>address, limit, skip, child\<close>
  | CoScanNode addr
  | OtherNode addr nat "ABT list"

text \<open>
  Modelled from the spec: the property record of a node (\<^verbatim>\<open>NodeProps\<close> is declared in
  props.h, outside explain.h): "an integer plan-node identifier and a cost estimate
  (non-negative real number)". The cost is only copied into the document, never computed
  with.
\<close>

record NodeProps =
  planNodeId :: "32 word"
  cost :: real

type_synonym NodeToGroupPropsMap = "addr \<rightharpoonup> NodeProps"

text \<open>
  A BSON object is the ordered list of its fields; a builder holds the fields appended so
  far, and \<^verbatim>\<open>bob->append(k, v)\<close> adds one field at the end.
\<close>

datatype BSONValue =
    BString string
  | BInt "32 word"
  | BDouble real
  | BObject "(string \<times> BSONValue) list"

type_synonym BSONObj = "(string \<times> BSONValue) list"

text \<open>
  The way a call ends without a result: \<^verbatim>\<open>tassert\<close>/\<^verbatim>\<open>tasserted\<close>, with its code and
  message.
\<close>

datatype error = TAssert nat string

abbreviation kStage :: string where "kStage \<equiv> ''stage''"
abbreviation kNodeId :: string where "kNodeId \<equiv> ''planNodeId''"
abbreviation kProj :: string where "kProj \<equiv> ''projections''"
abbreviation kCE :: string where "kCE \<equiv> ''cardinalityEstimate''"
abbreviation kInput :: string where "kInput \<equiv> ''inputStage''"
abbreviation kScanName :: string where "kScanName \<equiv> ''COLLSCAN''"
abbreviation kDir :: string where "kDir \<equiv> ''direction''"
abbreviation kForward :: string where "kForward \<equiv> ''forward''"
abbreviation kBackward :: string where "kBackward \<equiv> ''backward''"
abbreviation kRandom :: string where "kRandom \<equiv> ''random''"
abbreviation kFilterName :: string where "kFilterName \<equiv> ''FILTER''"
abbreviation kFilter :: string where "kFilter \<equiv> ''filter''"
abbreviation kEvalName :: string where "kEvalName \<equiv> ''EVALUATION''"
abbreviation kRootName :: string where "kRootName \<equiv> ''ROOT''"
abbreviation kCost :: string where "kCost \<equiv> ''costEstimate''"
abbreviation kEOF :: string where "kEOF \<equiv> ''EOF''"

abbreviation missingProps :: string where "missingProps \<equiv> ''Failed to find node properties''"
abbreviation unsupportedNode :: string where
  "unsupportedNode \<equiv> ''Trying to generate explain for an unsupported node.''"
abbreviation noNodes :: string where "noNodes \<equiv> ''The ABT has no nodes.''"

subsection \<open>Equality of trees\<close>

text \<open>
  \<^verbatim>\<open>==\<close> on ABTs compares the variants and their contents, not the addresses: \<open>strip\<close>
  forgets the addresses, and two trees are equal when what remains is.
\<close>

fun strip :: "ABT \<Rightarrow> ABT" where
  "strip (Constant v) = Constant v"
| "strip (OtherExpr tag xs) = OtherExpr tag (map strip xs)"
| "strip (RootNode a child refs) = RootNode 0 (strip child) (strip refs)"
| "strip (FilterNode a child e) = FilterNode 0 (strip child) (strip e)"
| "strip (EvaluationNode a child name proj) = EvaluationNode 0 (strip child) name (strip proj)"
| "strip (PhysicalScanNode a bind order) = PhysicalScanNode 0 (strip bind) order"
| "strip (LimitSkipNode a limit skip child) = LimitSkipNode 0 limit skip (strip child)"
| "strip (CoScanNode a) = CoScanNode 0"
| "strip (OtherNode a tag xs) = OtherNode 0 tag (map strip xs)"

definition abtEq :: "ABT \<Rightarrow> ABT \<Rightarrow> bool" where
  "abtEq x y = (strip x = strip y)"

subsection \<open>The handlers\<close>

text \<open>
  \<^verbatim>\<open>generateExplain(n, bob)\<close> dispatches on the variant of \<open>n\<close> to the handler \<^verbatim>\<open>walk\<close> of
  that variant; each equation below is one handler. The builder is passed in and returned.
  \<^verbatim>\<open>subobjStart(kInput)\<close> opens an empty builder for the child, whose fields become the
  value of the field \<^verbatim>\<open>inputStage\<close> when the handler returns. A failed assertion ends the
  whole call, and nothing of the builder is returned.
\<close>

fun generateExplain :: "NodeToGroupPropsMap \<Rightarrow> ABT \<Rightarrow> BSONObj \<Rightarrow> error + BSONObj" where
  "generateExplain nodeMap (RootNode a child refs) bob =
     (case nodeMap a of
        None \<Rightarrow> Inl (TAssert 8075600 missingProps)
      | Some props \<Rightarrow>
          (case generateExplain nodeMap child [] of
             Inl e \<Rightarrow> Inl e
           | Inr inputBob \<Rightarrow>
               Inr (bob @ [(kStage, BString kRootName),
                           (kProj, BString ''<todo>''),
                           (kCE, BString ''<todo>''),
                           (kCost, BDouble (cost props)),
                           (kInput, BObject inputBob)])))"
| "generateExplain nodeMap (FilterNode a child e) bob =
     (case nodeMap a of
        None \<Rightarrow> Inl (TAssert 8075601 missingProps)
      | Some props \<Rightarrow>
          (case generateExplain nodeMap child [] of
             Inl e \<Rightarrow> Inl e
           | Inr inputBob \<Rightarrow>
               Inr (bob @ [(kStage, BString kFilterName),
                           (kNodeId, BInt (planNodeId props)),
                           (kFilter, BString ''<todo>''),
                           (kCE, BString ''<todo>''),
                           (kInput, BObject inputBob)])))"
| "generateExplain nodeMap (EvaluationNode a child name proj) bob =
     (case nodeMap a of
        None \<Rightarrow> Inl (TAssert 8075602 missingProps)
      | Some props \<Rightarrow>
          (case generateExplain nodeMap child [] of
             Inl e \<Rightarrow> Inl e
           | Inr inputBob \<Rightarrow>
               Inr (bob @ [(kStage, BString kEvalName),
                           (kNodeId, BInt (planNodeId props)),
                           (kProj, BString ''<todo>''),
                           (kCE, BString ''<todo>''),
                           (kInput, BObject inputBob)])))"
| "generateExplain nodeMap (PhysicalScanNode a bind order) bob =
     (case nodeMap a of
        None \<Rightarrow> Inl (TAssert 8075603 missingProps)
      | Some props \<Rightarrow>
          Inr (bob @ [(kStage, BString kScanName),
                      (kNodeId, BInt (planNodeId props)),
                      (kDir, BString (case order of
                                        Forward \<Rightarrow> kForward
                                      | Reverse \<Rightarrow> kBackward
                                      | Random \<Rightarrow> kRandom)),
                      (kProj, BString ''<todo>''),
                      (kCE, BString ''<todo>'')]))"
| "generateExplain nodeMap _ bob = Inl (TAssert 8075606 unsupportedNode)"

subsection \<open>The EOF plan and explain\<close>

text \<open>
  \<^verbatim>\<open>node.cast<Node>()\<close>: the address of a plan node; an expression is no \<^verbatim>\<open>Node\<close>, and the
  map has no record for it.
\<close>

fun castNode :: "ABT \<Rightarrow> addr option" where
  "castNode (Constant v) = None"
| "castNode (OtherExpr tag xs) = None"
| "castNode (RootNode a child refs) = Some a"
| "castNode (FilterNode a child e) = Some a"
| "castNode (EvaluationNode a child name proj) = Some a"
| "castNode (PhysicalScanNode a bind order) = Some a"
| "castNode (LimitSkipNode a limit skip child) = Some a"
| "castNode (CoScanNode a) = Some a"
| "castNode (OtherNode a tag xs) = Some a"

definition generateEOFPlan :: "NodeToGroupPropsMap \<Rightarrow> ABT \<Rightarrow> error + BSONObj" where
  "generateEOFPlan nodeMap node =
     (case castNode node of
        None \<Rightarrow> Inl (TAssert 8075605 missingProps)
      | Some a \<Rightarrow>
          (case nodeMap a of
             None \<Rightarrow> Inl (TAssert 8075605 missingProps)
           | Some props \<Rightarrow>
               Inr [(kStage, BString kEOF), (kNodeId, BInt (planNodeId props))]))"

text \<open>
  \<^verbatim>\<open>eofChild\<close>, "the rest of an EOF plan", is a node built for the comparison; its
  addresses play no role in \<^verbatim>\<open>==\<close>.
\<close>

definition eofChild :: ABT where
  "eofChild = LimitSkipNode 0 0 0 (CoScanNode 0)"

text \<open>
  \<^verbatim>\<open>isEOFPlan\<close> is given on a \<^verbatim>\<open>RootNode\<close>: "This function expects the full ABT to be the
  argument. So we must have a RootNode." The source reads the child through the cast of
  line 200 and has no branch for a node of another variant, so the model has no equation
  for one: \<open>isEOFPlan\<close> and \<open>explain\<close> say nothing about a plan without a Root on top. The
  equation is the body of the function, test by test.
\<close>

fun isEOFPlan :: "ABT \<Rightarrow> bool" where
  "isEOFPlan (RootNode a child refs) =
     (case child of
        EvaluationNode a' child' name proj \<Rightarrow>
          if \<not> abtEq proj (Constant Nothing) then False
          else abtEq child' eofChild
      | _ \<Rightarrow> False)"

text \<open>
  The end of \<^verbatim>\<open>explain\<close> (lines 227 to 234), as a function of the builder the traversal
  leaves: the object is taken from the builder, asserted to be non-empty, and returned.
\<close>

definition explainResult :: "BSONObj \<Rightarrow> error + BSONObj" where
  "explainResult result =
     (if result = [] then Inl (TAssert 8075604 noNodes) else Inr result)"

text \<open>
  \<^verbatim>\<open>explain\<close>: the EOF stage if the plan is an EOF plan; else the traversal from an empty
  builder, whose failed assertion ends the call, and then the end of the function.
\<close>

definition explain :: "NodeToGroupPropsMap \<Rightarrow> ABT \<Rightarrow> error + BSONObj" where
  "explain nodeMap node =
     (if isEOFPlan node then generateEOFPlan nodeMap node
      else (case generateExplain nodeMap node [] of
              Inl e \<Rightarrow> Inl e
            | Inr bob \<Rightarrow> explainResult bob))"

subsection \<open>The notions the specification uses\<close>

text \<open>
  The canonical empty-result shape, in the specification's words: Root, then a projection
  of the nothing sentinel, then Limit-Skip with limit 0 and skip 0, then the empty
  generator. Addresses, the projection name and the references of the root are free.
\<close>

fun canonicalEOF :: "ABT \<Rightarrow> bool" where
  "canonicalEOF (RootNode a (EvaluationNode a1 (LimitSkipNode a2 limit skip (CoScanNode a3))
                               name proj) refs) =
     (proj = Constant Nothing \<and> limit = 0 \<and> skip = 0)"
| "canonicalEOF _ = False"

fun isRootNode :: "ABT \<Rightarrow> bool" where
  "isRootNode (RootNode a child refs) = True"
| "isRootNode _ = False"

text \<open>The variants that have a handler.\<close>

fun supported :: "ABT \<Rightarrow> bool" where
  "supported (RootNode a child refs) = True"
| "supported (FilterNode a child e) = True"
| "supported (EvaluationNode a child name proj) = True"
| "supported (PhysicalScanNode a bind order) = True"
| "supported _ = False"

text \<open>
  The nodes the traversal can reach from the top: a Root, Filter or Evaluation node and
  then the nodes reached from its child; any other node ends the chain (a scan has no
  child, and a variant without handler passes nothing on).
\<close>

fun stages :: "ABT \<Rightarrow> ABT list" where
  "stages (RootNode a child refs) = RootNode a child refs # stages child"
| "stages (FilterNode a child e) = FilterNode a child e # stages child"
| "stages (EvaluationNode a child name proj) = EvaluationNode a child name proj # stages child"
| "stages t = [t]"

definition hasRecord :: "NodeToGroupPropsMap \<Rightarrow> ABT \<Rightarrow> bool" where
  "hasRecord nodeMap n = (case castNode n of None \<Rightarrow> False | Some a \<Rightarrow> nodeMap a \<noteq> None)"

text \<open>The missing-property condition: the assertions with the message of lines 111 to 189.\<close>

fun missingProperty :: "error \<Rightarrow> bool" where
  "missingProperty (TAssert code msg) = (msg = missingProps)"

text \<open>The direction names as the specification pairs them with the scan orders.\<close>

fun directionOf :: "ScanOrder \<Rightarrow> string" where
  "directionOf Forward = ''forward''"
| "directionOf Reverse = ''backward''"
| "directionOf Random = ''random''"

text \<open>
  The stage documents of a document: the document itself, then the document under its
  field \<^verbatim>\<open>inputStage\<close>, and so on down to a document without such a sub-document.
\<close>

function stageDocs :: "BSONObj \<Rightarrow> BSONObj list" where
  "stageDocs d =
     d # (case map_of d kInput of Some (BObject sub) \<Rightarrow> stageDocs sub | _ \<Rightarrow> [])"
  by pat_completeness auto
termination
proof (relation "measure (size_list (size_prod (\<lambda>_. 0) size))")
  show "wf (measure (size_list (size_prod (\<lambda>_. 0) size)))" by simp
next
  fix d :: BSONObj and x sub
  assume found: "map_of d kInput = Some x" and obj: "x = BObject sub"
  have below: "map_of fs k = Some v \<Longrightarrow> size v < Suc (size_list (size_prod (\<lambda>_. 0) size) fs)"
    for fs :: BSONObj and k v
    by (induction fs) (auto split: if_splits)
  from below [OF found] obj
  show "(sub, d) \<in> measure (size_list (size_prod (\<lambda>_. 0) size))" by simp
qed

declare stageDocs.simps [simp del]

text \<open>
  What a stage document of a node consists of, field by field and in order: the table of
  the specification with the fields the handlers append besides (the cardinality
  placeholder of every stage, the projection placeholder of a scan).
\<close>

fun stageDocOf :: "NodeToGroupPropsMap \<Rightarrow> ABT \<Rightarrow> BSONObj \<Rightarrow> bool" where
  "stageDocOf nodeMap (RootNode a child refs) d =
     (map fst d = [kStage, kProj, kCE, kCost, kInput] \<and>
      map_of d kStage = Some (BString kRootName) \<and>
      map_of d kProj = Some (BString ''<todo>'') \<and>
      map_of d kCE = Some (BString ''<todo>'') \<and>
      (case nodeMap a of None \<Rightarrow> False
       | Some props \<Rightarrow> map_of d kCost = Some (BDouble (cost props))))"
| "stageDocOf nodeMap (FilterNode a child e) d =
     (map fst d = [kStage, kNodeId, kFilter, kCE, kInput] \<and>
      map_of d kStage = Some (BString kFilterName) \<and>
      map_of d kFilter = Some (BString ''<todo>'') \<and>
      map_of d kCE = Some (BString ''<todo>'') \<and>
      (case nodeMap a of None \<Rightarrow> False
       | Some props \<Rightarrow> map_of d kNodeId = Some (BInt (planNodeId props))))"
| "stageDocOf nodeMap (EvaluationNode a child name proj) d =
     (map fst d = [kStage, kNodeId, kProj, kCE, kInput] \<and>
      map_of d kStage = Some (BString kEvalName) \<and>
      map_of d kProj = Some (BString ''<todo>'') \<and>
      map_of d kCE = Some (BString ''<todo>'') \<and>
      (case nodeMap a of None \<Rightarrow> False
       | Some props \<Rightarrow> map_of d kNodeId = Some (BInt (planNodeId props))))"
| "stageDocOf nodeMap (PhysicalScanNode a bind order) d =
     (map fst d = [kStage, kNodeId, kDir, kProj, kCE] \<and>
      map_of d kStage = Some (BString kScanName) \<and>
      map_of d kDir = Some (BString (directionOf order)) \<and>
      map_of d kProj = Some (BString ''<todo>'') \<and>
      map_of d kCE = Some (BString ''<todo>'') \<and>
      (case nodeMap a of None \<Rightarrow> False
       | Some props \<Rightarrow> map_of d kNodeId = Some (BInt (planNodeId props))))"
| "stageDocOf nodeMap _ d = False"

text \<open>
  The fields of a stage as the table of the specification lists them: the stage name, the
  extra fields of the variant, and the nested input stage where the variant has a child.
\<close>

fun tableFields :: "ABT \<Rightarrow> string list" where
  "tableFields (RootNode a child refs) = [kStage, kCost, kProj, kInput]"
| "tableFields (FilterNode a child e) = [kStage, kNodeId, kFilter, kInput]"
| "tableFields (EvaluationNode a child name proj) = [kStage, kNodeId, kProj, kInput]"
| "tableFields (PhysicalScanNode a bind order) = [kStage, kNodeId, kDir]"
| "tableFields _ = []"

text \<open>
  A supported single-child chain: \<open>chainBelow n t\<close> holds when \<open>t\<close> is \<open>n\<close> Filter or
  Evaluation nodes, each the child of the one before, and then a Physical-Scan;
  \<open>supportedChain n t\<close> when \<open>t\<close> is a Root over such a chain, \<open>n\<close> counting the nodes
  below the Root, that is the child links of the chain.
\<close>

fun chainBelow :: "nat \<Rightarrow> ABT \<Rightarrow> bool" where
  "chainBelow n (FilterNode a child e) = (case n of 0 \<Rightarrow> False | Suc m \<Rightarrow> chainBelow m child)"
| "chainBelow n (EvaluationNode a child name proj) =
     (case n of 0 \<Rightarrow> False | Suc m \<Rightarrow> chainBelow m child)"
| "chainBelow n (PhysicalScanNode a bind order) = (n = 0)"
| "chainBelow n _ = False"

fun supportedChain :: "nat \<Rightarrow> ABT \<Rightarrow> bool" where
  "supportedChain n (RootNode a child refs) =
     (case n of 0 \<Rightarrow> False | Suc m \<Rightarrow> chainBelow m child)"
| "supportedChain n _ = False"

subsection \<open>Example plans\<close>

text \<open>
  The scenario of the specification: Root (cost 12.5, id 1) over Filter (id 2) over a
  forward Physical-Scan (id 3), the nodes at the addresses 10, 20 and 30.
\<close>

definition exTree :: ABT where
  "exTree =
     RootNode 10
       (FilterNode 20 (PhysicalScanNode 30 (OtherExpr 2 []) Forward) (OtherExpr 1 []))
       (OtherExpr 0 [])"

definition exMap :: NodeToGroupPropsMap where
  "exMap = [10 \<mapsto> \<lparr>planNodeId = 1, cost = 25 / 2\<rparr>,
            20 \<mapsto> \<lparr>planNodeId = 2, cost = 10\<rparr>,
            30 \<mapsto> \<lparr>planNodeId = 3, cost = 8\<rparr>]"

text \<open>The plan of an empty result, and a store that knows its root only.\<close>

definition eofTree :: ABT where
  "eofTree =
     RootNode 10
       (EvaluationNode 20 (LimitSkipNode 30 0 0 (CoScanNode 40)) ''p0'' (Constant Nothing))
       (OtherExpr 0 [])"

definition rootOnlyMap :: NodeToGroupPropsMap where
  "rootOnlyMap = [10 \<mapsto> \<lparr>planNodeId = 1, cost = 0\<rparr>]"

section \<open>Properties of the handlers\<close>

subsection \<open>Equality against the EOF pattern\<close>

lemma strip_eq_Constant: "(strip x = Constant v) = (x = Constant v)"
  by (cases x) auto

lemma strip_eq_CoScan: "(strip x = CoScanNode 0) = (\<exists>a. x = CoScanNode a)"
  by (cases x) auto

lemma abtEq_nothing: "abtEq p (Constant Nothing) = (p = Constant Nothing)"
  by (simp add: abtEq_def strip_eq_Constant)

lemma abtEq_eofChild: "abtEq x eofChild = (\<exists>a a'. x = LimitSkipNode a 0 0 (CoScanNode a'))"
  by (cases x) (auto simp: abtEq_def eofChild_def strip_eq_CoScan)

lemma canonicalEOF_Eval:
  "canonicalEOF (RootNode a (EvaluationNode a1 c name proj) refs) =
     (proj = Constant Nothing \<and> (\<exists>a2 a3. c = LimitSkipNode a2 0 0 (CoScanNode a3)))"
proof (cases c)
  case (LimitSkipNode a2 limit skip c2)
  then show ?thesis by (cases c2) auto
qed auto

lemma isEOFPlan_Root:
  "isEOFPlan (RootNode a child refs) = canonicalEOF (RootNode a child refs)"
proof (cases child)
  case (EvaluationNode a1 c name proj)
  then show ?thesis
    by (simp add: abtEq_nothing abtEq_eofChild canonicalEOF_Eval)
qed auto

lemma isEOFPlan_isRootNode: "isRootNode t \<Longrightarrow> isEOFPlan t = canonicalEOF t"
proof (cases t)
  case (RootNode a child refs)
  show ?thesis unfolding RootNode by (rule isEOFPlan_Root)
qed simp_all

lemma canonicalEOF_isRootNode: "canonicalEOF t \<Longrightarrow> isRootNode t"
  by (cases t) simp_all

lemma canonicalEOF_unsupported: "canonicalEOF t \<Longrightarrow> \<exists>n\<in>set (stages t). \<not> supported n"
  by (erule canonicalEOF.elims) simp_all

subsection \<open>The traversal\<close>

lemma generateExplain_nonempty: "generateExplain nodeMap t bob = Inr d \<Longrightarrow> d \<noteq> []"
  by (cases t) (auto split: option.splits sum.splits)

lemma explainResult_iff: "(explainResult bob = Inr d) = (d = bob \<and> bob \<noteq> [])"
  by (auto simp: explainResult_def)

lemma explain_not_EOF:
  "\<not> isEOFPlan t \<Longrightarrow> explain nodeMap t = generateExplain nodeMap t []"
  by (auto simp: explain_def explainResult_def split: sum.splits
      dest: generateExplain_nonempty)

lemma explain_EOF:
  "isEOFPlan t \<Longrightarrow> explain nodeMap t = generateEOFPlan nodeMap t"
  by (simp add: explain_def)

lemma self_in_stages: "t \<in> set (stages t)"
  by (cases t) simp_all

lemma stageDocs_input:
  "map_of d kInput = Some (BObject sub) \<Longrightarrow> stageDocs d = d # stageDocs sub"
  by (subst stageDocs.simps) simp

lemma stageDocs_leaf: "map_of d kInput = None \<Longrightarrow> stageDocs d = [d]"
  by (subst stageDocs.simps) simp

lemma walk_stageDocs:
  "generateExplain nodeMap t [] = Inr d \<Longrightarrow>
     list_all2 (stageDocOf nodeMap) (stages t) (stageDocs d)"
proof (induction t arbitrary: d)
  case (RootNode a child refs)
  then show ?case
    by (auto split: option.splits sum.splits simp: stageDocs_input)
next
  case (FilterNode a child e)
  then show ?case
    by (auto split: option.splits sum.splits simp: stageDocs_input)
next
  case (EvaluationNode a child name proj)
  then show ?case
    by (auto split: option.splits sum.splits simp: stageDocs_input)
next
  case (PhysicalScanNode a bind order)
  then show ?case
    by (cases order) (auto split: option.splits simp: stageDocs_leaf)
qed simp_all

lemma walk_total:
  "\<forall>n\<in>set (stages t). supported n \<and> hasRecord nodeMap n \<Longrightarrow>
     \<exists>d. generateExplain nodeMap t bob = Inr d"
proof (induction t arbitrary: bob)
  case (RootNode a child refs)
  from RootNode.prems obtain p where "nodeMap a = Some p" by (auto simp: hasRecord_def)
  moreover from RootNode.prems RootNode.IH(1) [of "[]"]
  obtain sub where "generateExplain nodeMap child [] = Inr sub" by auto
  ultimately show ?case by simp
next
  case (FilterNode a child e)
  from FilterNode.prems obtain p where "nodeMap a = Some p" by (auto simp: hasRecord_def)
  moreover from FilterNode.prems FilterNode.IH(1) [of "[]"]
  obtain sub where "generateExplain nodeMap child [] = Inr sub" by auto
  ultimately show ?case by simp
next
  case (EvaluationNode a child name proj)
  from EvaluationNode.prems obtain p where "nodeMap a = Some p" by (auto simp: hasRecord_def)
  moreover from EvaluationNode.prems EvaluationNode.IH(1) [of "[]"]
  obtain sub where "generateExplain nodeMap child [] = Inr sub" by auto
  ultimately show ?case by simp
next
  case (PhysicalScanNode a bind order)
  then show ?case by (auto simp: hasRecord_def)
qed simp_all

lemma walk_missing_iff:
  "(\<exists>e. generateExplain nodeMap t bob = Inl e \<and> missingProperty e) =
   (\<exists>n\<in>set (stages t). supported n \<and> \<not> hasRecord nodeMap n)"
proof (induction t arbitrary: bob)
  case (RootNode a child refs)
  show ?case using RootNode.IH(1) [of "[]"]
    by (cases "nodeMap a") (auto simp: hasRecord_def split: sum.splits)
next
  case (FilterNode a child e)
  show ?case using FilterNode.IH(1) [of "[]"]
    by (cases "nodeMap a") (auto simp: hasRecord_def split: sum.splits)
next
  case (EvaluationNode a child name proj)
  show ?case using EvaluationNode.IH(1) [of "[]"]
    by (cases "nodeMap a") (auto simp: hasRecord_def split: sum.splits)
next
  case (PhysicalScanNode a bind order)
  show ?case by (cases "nodeMap a") (auto simp: hasRecord_def)
qed simp_all

lemma walk_unsupported_no_doc:
  "\<exists>n\<in>set (stages t). \<not> supported n \<Longrightarrow> generateExplain nodeMap t bob \<noteq> Inr d"
proof (induction t arbitrary: bob d)
  case (RootNode a child refs)
  then show ?case by (auto split: option.splits sum.splits)
next
  case (FilterNode a child e)
  then show ?case by (auto split: option.splits sum.splits)
next
  case (EvaluationNode a child name proj)
  then show ?case by (auto split: option.splits sum.splits)
qed simp_all

lemma walk_unsupported_abort:
  "\<exists>n\<in>set (stages t). \<not> supported n \<Longrightarrow>
   \<forall>n\<in>set (stages t). supported n \<longrightarrow> hasRecord nodeMap n \<Longrightarrow>
     generateExplain nodeMap t bob = Inl (TAssert 8075606 unsupportedNode)"
proof (induction t arbitrary: bob)
  case (RootNode a child refs)
  then show ?case by (auto simp: hasRecord_def split: option.splits sum.splits)
next
  case (FilterNode a child e)
  then show ?case by (auto simp: hasRecord_def split: option.splits sum.splits)
next
  case (EvaluationNode a child name proj)
  then show ?case by (auto simp: hasRecord_def split: option.splits sum.splits)
qed simp_all

lemma chainBelow_stages:
  "chainBelow n t \<Longrightarrow>
     (\<forall>x\<in>set (stages t). supported x) \<and> length (stages t) = Suc n \<and>
     (\<exists>a bind order. last (stages t) = PhysicalScanNode a bind order)"
proof (induction t arbitrary: n)
  case (FilterNode a child e)
  then show ?case by (cases n) (auto simp: self_in_stages)
next
  case (EvaluationNode a child name proj)
  then show ?case by (cases n) (auto simp: self_in_stages)
qed simp_all

lemma supportedChain_stages:
  "supportedChain n t \<Longrightarrow>
     isRootNode t \<and> 1 \<le> n \<and> (\<forall>x\<in>set (stages t). supported x) \<and>
     length (stages t) = Suc n \<and>
     (\<exists>a bind order. last (stages t) = PhysicalScanNode a bind order)"
proof (cases t)
  case (RootNode a child refs)
  assume "supportedChain n t"
  with RootNode obtain m where n: "n = Suc m" and c: "chainBelow m child"
    by (cases n) auto
  have "stages child \<noteq> []" using self_in_stages [of child] by auto
  with chainBelow_stages [OF c] n RootNode show ?thesis by auto
qed simp_all

lemma scan_stage_doc:
  "stageDocOf nodeMap (PhysicalScanNode a bind order) d \<Longrightarrow>
     map_of d kStage = Some (BString kScanName) \<and> kInput \<notin> fst ` set d"
proof -
  assume "stageDocOf nodeMap (PhysicalScanNode a bind order) d"
  then have "map fst d = [kStage, kNodeId, kDir, kProj, kCE]"
    and "map_of d kStage = Some (BString kScanName)" by simp_all
  moreover have "fst ` set d = set (map fst d)" by simp
  ultimately show ?thesis by simp
qed

section \<open>The claims\<close>

subsection \<open>C1: a plan that deviates from the EOF shape\<close>

text \<open>
  C1. For every input tree, a plan with its Root on top, that deviates from the canonical
  empty-result shape Root, Evaluation of the nothing sentinel, Limit-Skip (0, 0), CoScan
  (in the variants of the nodes, in the bounds, or in the projection), \<^verbatim>\<open>isEOFPlan\<close>
  returns false, and \<^verbatim>\<open>explain\<close> falls through to the full traversal: it ends as the
  traversal from an empty builder ends, with its document or its abort.
\<close>

theorem isEOFPlan_deviation:
  "isRootNode t \<Longrightarrow> \<not> canonicalEOF t \<Longrightarrow>
     \<not> isEOFPlan t \<and> explain nodeMap t = generateExplain nodeMap t []"
  by (simp add: isEOFPlan_isRootNode explain_not_EOF)

text \<open>
  Limit-Skip (0, 1) in place of (0, 0): the plan is no EOF plan, and the traversal runs
  into the Limit-Skip node, which has no handler.
\<close>

theorem isEOFPlan_deviation_witness:
  "isRootNode (RootNode 10
      (EvaluationNode 20 (LimitSkipNode 30 0 1 (CoScanNode 40)) ''p0'' (Constant Nothing))
      (OtherExpr 0 [])) \<and>
   \<not> canonicalEOF (RootNode 10
      (EvaluationNode 20 (LimitSkipNode 30 0 1 (CoScanNode 40)) ''p0'' (Constant Nothing))
      (OtherExpr 0 [])) \<and>
   \<not> isEOFPlan (RootNode 10
      (EvaluationNode 20 (LimitSkipNode 30 0 1 (CoScanNode 40)) ''p0'' (Constant Nothing))
      (OtherExpr 0 [])) \<and>
   explain exMap (RootNode 10
      (EvaluationNode 20 (LimitSkipNode 30 0 1 (CoScanNode 40)) ''p0'' (Constant Nothing))
      (OtherExpr 0 [])) = Inl (TAssert 8075606 unsupportedNode)"
  using isEOFPlan_deviation [of "RootNode 10
      (EvaluationNode 20 (LimitSkipNode 30 0 1 (CoScanNode 40)) ''p0'' (Constant Nothing))
      (OtherExpr 0 [])" exMap]
  by (simp add: exMap_def)

subsection \<open>C2: the fields of every stage\<close>

text \<open>
  C2, as amended. For every supported tree (a Root whose chain of input stages has
  supported variants only, each with a record; such a tree is never an EOF plan),
  \<^verbatim>\<open>explain\<close> returns a document whose stage documents are, one for one and in order,
  those of the nodes of the chain, each with exactly these fields in this order:
  Root: stage ROOT, projections placeholder, cardinalityEstimate placeholder,
  costEstimate, inputStage;
  Filter: stage FILTER, planNodeId, filter placeholder, cardinalityEstimate placeholder,
  inputStage;
  Evaluation: stage EVALUATION, planNodeId, projections placeholder, cardinalityEstimate
  placeholder, inputStage;
  Physical-Scan: stage COLLSCAN, planNodeId, direction, projections placeholder,
  cardinalityEstimate placeholder.
\<close>

theorem explain_stage_fields:
  "isRootNode t \<Longrightarrow> \<forall>n\<in>set (stages t). supported n \<and> hasRecord nodeMap n \<Longrightarrow>
     \<not> isEOFPlan t \<and>
     (\<exists>d. explain nodeMap t = Inr d \<and>
          list_all2 (stageDocOf nodeMap) (stages t) (stageDocs d))"
proof -
  assume root: "isRootNode t"
    and all: "\<forall>n\<in>set (stages t). supported n \<and> hasRecord nodeMap n"
  from all have "\<not> canonicalEOF t" using canonicalEOF_unsupported [of t] by auto
  with root have noEOF: "\<not> isEOFPlan t" by (simp add: isEOFPlan_isRootNode)
  from walk_total [OF all, of "[]"]
  obtain d where d: "generateExplain nodeMap t [] = Inr d" ..
  from walk_stageDocs [OF d] d noEOF show ?thesis
    by (simp add: explain_not_EOF)
qed

text \<open>
  The claim as written allows no field beyond the table's. On the scenario of the
  specification the Root stage has the field \<^verbatim>\<open>cardinalityEstimate\<close>, which the table
  does not list for it.
\<close>

theorem explain_stage_fields_counterexample:
  "\<not> isEOFPlan exTree \<and>
   explain exMap exTree =
     Inr [(kStage, BString kRootName), (kProj, BString ''<todo>''),
          (kCE, BString ''<todo>''), (kCost, BDouble (25 / 2)),
          (kInput, BObject
             [(kStage, BString kFilterName), (kNodeId, BInt 2),
              (kFilter, BString ''<todo>''), (kCE, BString ''<todo>''),
              (kInput, BObject
                 [(kStage, BString kScanName), (kNodeId, BInt 3),
                  (kDir, BString kForward), (kProj, BString ''<todo>''),
                  (kCE, BString ''<todo>'')])])] \<and>
   kCE \<notin> set (tableFields exTree)"
  by (simp add: explain_def explainResult_def exTree_def exMap_def abtEq_def)

theorem explain_stage_fields_witness:
  "isRootNode exTree \<and> list_all (\<lambda>n. supported n \<and> hasRecord exMap n) (stages exTree) \<and>
   \<not> isEOFPlan exTree \<and>
   (\<exists>d. explain exMap exTree = Inr d \<and>
        list_all2 (stageDocOf exMap) (stages exTree) (stageDocs d))"
proof -
  have root: "isRootNode exTree" by (simp add: exTree_def)
  have all: "\<forall>n\<in>set (stages exTree). supported n \<and> hasRecord exMap n"
    by (simp add: exTree_def exMap_def hasRecord_def)
  from explain_stage_fields [OF root all] root all show ?thesis
    by (simp add: list_all_iff)
qed

subsection \<open>C3: the EOF plan\<close>

text \<open>
  C3. For every tree of the canonical shape Root, Evaluation of the nothing sentinel,
  Limit-Skip (0, 0), CoScan, \<^verbatim>\<open>isEOFPlan\<close> returns true, and \<^verbatim>\<open>explain\<close> returns the
  document of exactly two fields, the stage name \<^verbatim>\<open>EOF\<close> and the plan-node id of the
  record of the Root: no input stage is nested in it, and whatever the store holds for
  the inner nodes plays no role.
\<close>

theorem explain_EOF_plan:
  "canonicalEOF t \<Longrightarrow>
     isEOFPlan t \<and>
     (\<forall>a props. castNode t = Some a \<longrightarrow> nodeMap a = Some props \<longrightarrow>
        explain nodeMap t = Inr [(kStage, BString kEOF), (kNodeId, BInt (planNodeId props))])"
proof -
  assume canon: "canonicalEOF t"
  then have eof: "isEOFPlan t"
    by (simp add: isEOFPlan_isRootNode canonicalEOF_isRootNode)
  then show ?thesis
    by (simp add: explain_EOF generateEOFPlan_def)
qed

theorem explain_EOF_plan_witness:
  "canonicalEOF eofTree \<and> isEOFPlan eofTree \<and>
   castNode eofTree = Some 10 \<and> rootOnlyMap 10 = Some \<lparr>planNodeId = 1, cost = 0\<rparr> \<and>
   explain rootOnlyMap eofTree = Inr [(kStage, BString kEOF), (kNodeId, BInt 1)]"
proof -
  have canon: "canonicalEOF eofTree" by (simp add: eofTree_def)
  have root: "castNode eofTree = Some 10" by (simp add: eofTree_def)
  have rec: "rootOnlyMap 10 = Some \<lparr>planNodeId = 1, cost = 0\<rparr>" by (simp add: rootOnlyMap_def)
  from explain_EOF_plan [OF canon, of rootOnlyMap] root rec canon show ?thesis by simp
qed

subsection \<open>C4: the depth of the document of a chain\<close>

text \<open>
  C4. For every \<open>n \<ge> 1\<close> and every supported single-child chain of length \<open>n\<close>, a Root
  followed by Filter and Evaluation stages and ending in a Physical-Scan, the length
  counted in child links (\<open>n\<close> nodes below the Root, \<open>n + 1\<close> nodes in all), with every
  node in the store: \<^verbatim>\<open>explain\<close> returns a document with exactly \<open>n\<close> sub-documents nested
  under \<^verbatim>\<open>inputStage\<close>, and the innermost is a COLLSCAN stage without the field
  \<^verbatim>\<open>inputStage\<close>.
\<close>

theorem explain_chain_depth:
  "supportedChain n t \<Longrightarrow> \<forall>x\<in>set (stages t). hasRecord nodeMap x \<Longrightarrow>
     1 \<le> n \<and> length (stages t) = Suc n \<and>
     (\<exists>d. explain nodeMap t = Inr d \<and>
          length (stageDocs d) = Suc n \<and>
          map_of (last (stageDocs d)) kStage = Some (BString kScanName) \<and>
          kInput \<notin> fst ` set (last (stageDocs d)))"
proof -
  assume chain: "supportedChain n t" and recs: "\<forall>x\<in>set (stages t). hasRecord nodeMap x"
  from supportedChain_stages [OF chain]
  obtain a bind order where root: "isRootNode t" and n: "1 \<le> n"
    and sup: "\<forall>x\<in>set (stages t). supported x" and len: "length (stages t) = Suc n"
    and scan: "last (stages t) = PhysicalScanNode a bind order" by blast
  from sup have "\<not> canonicalEOF t" using canonicalEOF_unsupported [of t] by auto
  with root have noEOF: "\<not> isEOFPlan t" by (simp add: isEOFPlan_isRootNode)
  from sup recs have all: "\<forall>x\<in>set (stages t). supported x \<and> hasRecord nodeMap x" by simp
  from walk_total [OF all, of "[]"]
  obtain d where d: "generateExplain nodeMap t [] = Inr d" ..
  have docs: "list_all2 (stageDocOf nodeMap) (stages t) (stageDocs d)"
    by (rule walk_stageDocs [OF d])
  then have len': "length (stageDocs d) = Suc n" using len by (simp add: list_all2_lengthD)
  have ne: "stages t \<noteq> []" "stageDocs d \<noteq> []" using len len' by auto
  have "stageDocOf nodeMap (last (stages t)) (last (stageDocs d))"
    using docs ne by (simp add: last_conv_nth list_all2_conv_all_nth)
  then have "map_of (last (stageDocs d)) kStage = Some (BString kScanName) \<and>
             kInput \<notin> fst ` set (last (stageDocs d))"
    unfolding scan by (rule scan_stage_doc)
  with n len len' d noEOF show ?thesis by (simp add: explain_not_EOF)
qed

theorem explain_chain_depth_witness:
  "supportedChain 2 exTree \<and> list_all (hasRecord exMap) (stages exTree) \<and>
   length (stages exTree) = 3 \<and>
   (\<exists>d. explain exMap exTree = Inr d \<and>
        length (stageDocs d) = 3 \<and>
        map_of (last (stageDocs d)) kStage = Some (BString kScanName) \<and>
        kInput \<notin> fst ` set (last (stageDocs d)))"
proof -
  have chain: "supportedChain 2 exTree"
    by (simp add: exTree_def numeral_2_eq_2)
  have recs: "\<forall>x\<in>set (stages exTree). hasRecord exMap x"
    by (simp add: exTree_def exMap_def hasRecord_def)
  from explain_chain_depth [OF chain recs] chain recs show ?thesis
    by (simp add: list_all_iff)
qed

subsection \<open>C5: the direction of a scan\<close>

text \<open>
  C5. For every Physical-Scan node the handler renders (the node has a record), the
  fields it appends hold exactly one field \<^verbatim>\<open>direction\<close>; its value is one of the
  strings forward, backward, random and is the one paired with the scan order of the
  node (Forward with forward, Reverse with backward, Random with random), a pairing that
  maps different scan orders to different strings.
\<close>

theorem scan_direction:
  "nodeMap a = Some props \<Longrightarrow>
     (\<exists>d. generateExplain nodeMap (PhysicalScanNode a bind order) bob = Inr d \<and>
          map snd (filter (\<lambda>f. fst f = kDir) (drop (length bob) d)) =
            [BString (directionOf order)]) \<and>
     directionOf order \<in> {kForward, kBackward, kRandom} \<and>
     inj directionOf"
proof -
  assume "nodeMap a = Some props"
  moreover have "directionOf order \<in> {kForward, kBackward, kRandom}"
    by (cases order) simp_all
  moreover have "inj directionOf"
  proof (rule injI)
    fix x y assume "directionOf x = directionOf y"
    then show "x = y" by (cases x; cases y) simp_all
  qed
  ultimately show ?thesis by (cases order) simp_all
qed

theorem scan_direction_witness:
  "exMap 30 = Some \<lparr>planNodeId = 3, cost = 8\<rparr> \<and>
   generateExplain exMap (PhysicalScanNode 30 (OtherExpr 2 []) Reverse) [] =
     Inr [(kStage, BString kScanName), (kNodeId, BInt 3), (kDir, BString kBackward),
          (kProj, BString ''<todo>''), (kCE, BString ''<todo>'')] \<and>
   directionOf Reverse = kBackward"
proof -
  have rec: "exMap 30 = Some \<lparr>planNodeId = 3, cost = 8\<rparr>" by (simp add: exMap_def)
  from scan_direction [of exMap 30 "\<lparr>planNodeId = 3, cost = 8\<rparr>" "OtherExpr 2 []" Reverse "[]"] rec
  show ?thesis by simp
qed

subsection \<open>C6: a node without a record\<close>

text \<open>
  C6. The traversal, from any builder, aborts with the missing-property condition exactly
  when a supported node it can reach (a node of the chain of input stages) has no record
  in the store: such a node makes the call end with the assertion and no document,
  partial or other, and when every supported node of the chain has a record the call
  never ends with that assertion. The same holds for \<^verbatim>\<open>explain\<close> on every plan, a
  Root on top, that is not an EOF plan.
\<close>

theorem walk_missing_record:
  "((\<exists>e. generateExplain nodeMap t bob = Inl e \<and> missingProperty e) \<longleftrightarrow>
    (\<exists>n\<in>set (stages t). supported n \<and> \<not> hasRecord nodeMap n)) \<and>
   (isRootNode t \<longrightarrow> \<not> isEOFPlan t \<longrightarrow>
    ((\<exists>e. explain nodeMap t = Inl e \<and> missingProperty e) \<longleftrightarrow>
     (\<exists>n\<in>set (stages t). supported n \<and> \<not> hasRecord nodeMap n)))"
  by (simp add: walk_missing_iff explain_not_EOF)

text \<open>
  The scenario without the record of the Filter: the traversal ends at the Filter. With
  all three records no call ends so.
\<close>

theorem walk_missing_record_witness:
  "(\<exists>n\<in>set (stages exTree). supported n \<and> \<not> hasRecord (exMap(20 := None)) n) \<and>
   generateExplain (exMap(20 := None)) exTree [] = Inl (TAssert 8075601 missingProps) \<and>
   isRootNode exTree \<and> \<not> isEOFPlan exTree \<and>
   explain (exMap(20 := None)) exTree = Inl (TAssert 8075601 missingProps) \<and>
   \<not> (\<exists>n\<in>set (stages exTree). supported n \<and> \<not> hasRecord exMap n) \<and>
   \<not> (\<exists>e. explain exMap exTree = Inl e \<and> missingProperty e)"
proof -
  have root: "isRootNode exTree" by (simp add: exTree_def)
  have noEOF: "\<not> isEOFPlan exTree" by (simp add: exTree_def)
  have all: "\<not> (\<exists>n\<in>set (stages exTree). supported n \<and> \<not> hasRecord exMap n)"
    by (simp add: exTree_def exMap_def hasRecord_def)
  have "\<not> (\<exists>e. explain exMap exTree = Inl e \<and> missingProperty e)"
    using walk_missing_record [of exMap exTree "[]"] root noEOF all by simp
  moreover have "\<exists>n\<in>set (stages exTree). supported n \<and> \<not> hasRecord (exMap(20 := None)) n"
    by (simp add: exTree_def exMap_def hasRecord_def)
  moreover have "generateExplain (exMap(20 := None)) exTree [] = Inl (TAssert 8075601 missingProps)"
    by (simp add: exTree_def exMap_def)
  ultimately show ?thesis using root noEOF all by (simp add: explain_not_EOF)
qed

subsection \<open>C7: a variant without handler\<close>

text \<open>
  C7, as amended. For every tree whose chain of input stages reaches a node of a variant
  without handler, the traversal returns no document, from any builder: it aborts. The
  abort is the unsupported-variant condition (8075606) whenever every supported node of
  the chain has a record.
\<close>

theorem walk_unsupported:
  "\<exists>n\<in>set (stages t). \<not> supported n \<Longrightarrow>
     (\<forall>d. generateExplain nodeMap t bob \<noteq> Inr d) \<and>
     ((\<forall>n\<in>set (stages t). supported n \<longrightarrow> hasRecord nodeMap n) \<longrightarrow>
        generateExplain nodeMap t bob = Inl (TAssert 8075606 unsupportedNode))"
  by (simp add: walk_unsupported_no_doc walk_unsupported_abort)

text \<open>
  The claim as written promises the unsupported-variant condition for every tree that
  contains such a node. Under a Root without record the traversal ends at the Root, with
  the missing-property condition, and the dispatch never sees the CoScan node.
\<close>

theorem walk_unsupported_counterexample:
  "CoScanNode 20 \<in> set (stages (RootNode 10 (CoScanNode 20) (OtherExpr 0 []))) \<and>
   \<not> supported (CoScanNode 20) \<and>
   generateExplain Map.empty (RootNode 10 (CoScanNode 20) (OtherExpr 0 [])) [] =
     Inl (TAssert 8075600 missingProps) \<and>
   TAssert 8075600 missingProps \<noteq> TAssert 8075606 unsupportedNode"
  by simp

theorem walk_unsupported_witness:
  "(\<exists>n\<in>set (stages eofTree). \<not> supported n) \<and>
   list_all (hasRecord exMap) (filter supported (stages eofTree)) \<and>
   (\<forall>d. generateExplain exMap eofTree [] \<noteq> Inr d) \<and>
   generateExplain exMap eofTree [] = Inl (TAssert 8075606 unsupportedNode)"
proof -
  have reach: "\<exists>n\<in>set (stages eofTree). \<not> supported n" by (simp add: eofTree_def)
  have recs: "\<forall>n\<in>set (stages eofTree). supported n \<longrightarrow> hasRecord exMap n"
    by (simp add: eofTree_def exMap_def hasRecord_def)
  from walk_unsupported [OF reach, of exMap "[]"] reach recs show ?thesis
    by (simp add: list_all_iff)
qed

subsection \<open>C8: an empty document after the traversal\<close>

text \<open>
  C8. On every plan (a Root on top) that is not an EOF plan, \<^verbatim>\<open>explain\<close> hands the document
  of a completed traversal to the end of the function, which for any document whatever
  aborts with the assertion 8075604 if the document is empty, and returns it unchanged
  otherwise. So every document that \<^verbatim>\<open>explain\<close> returns on this path has at least one
  field.
\<close>

theorem explain_result_nonempty:
  "isRootNode t \<Longrightarrow> \<not> isEOFPlan t \<Longrightarrow>
     (\<forall>bob. generateExplain nodeMap t [] = Inr bob \<longrightarrow>
        explain nodeMap t = explainResult bob) \<and>
     explainResult [] = Inl (TAssert 8075604 noNodes) \<and>
     (\<forall>result d. explainResult result = Inr d \<longrightarrow> d = result \<and> d \<noteq> []) \<and>
     (\<forall>d. explain nodeMap t = Inr d \<longrightarrow> d \<noteq> [])"
proof -
  assume noEOF: "\<not> isEOFPlan t"
  have handed: "explain nodeMap t = explainResult bob"
    if "generateExplain nodeMap t [] = Inr bob" for bob
    using noEOF that by (simp add: explain_def)
  have abort: "explainResult [] = Inl (TAssert 8075604 noNodes)"
    by (simp add: explainResult_def)
  have checked: "d = result \<and> d \<noteq> []" if "explainResult result = Inr d" for result d
    using that by (simp add: explainResult_iff)
  have "d \<noteq> []" if ret: "explain nodeMap t = Inr d" for d
  proof (cases "generateExplain nodeMap t []")
    case (Inl e)
    with noEOF ret show ?thesis by (simp add: explain_def)
  next
    case (Inr bob)
    with handed ret have "explainResult bob = Inr d" by simp
    then show ?thesis using checked by blast
  qed
  with handed abort checked show ?thesis by blast
qed

text \<open>
  A Root over a random scan: the traversal completes, and its document passes the check
  that the empty document fails.
\<close>

theorem explain_result_nonempty_witness:
  "isRootNode (RootNode 10 (PhysicalScanNode 30 (OtherExpr 2 []) Random) (OtherExpr 0 [])) \<and>
   \<not> isEOFPlan (RootNode 10 (PhysicalScanNode 30 (OtherExpr 2 []) Random) (OtherExpr 0 [])) \<and>
   explain exMap (RootNode 10 (PhysicalScanNode 30 (OtherExpr 2 []) Random) (OtherExpr 0 [])) =
     Inr [(kStage, BString kRootName), (kProj, BString ''<todo>''),
          (kCE, BString ''<todo>''), (kCost, BDouble (25 / 2)),
          (kInput, BObject
             [(kStage, BString kScanName), (kNodeId, BInt 3), (kDir, BString kRandom),
              (kProj, BString ''<todo>''), (kCE, BString ''<todo>'')])] \<and>
   explainResult [] = Inl (TAssert 8075604 noNodes)"
proof -
  have root: "isRootNode (RootNode 10 (PhysicalScanNode 30 (OtherExpr 2 []) Random)
      (OtherExpr 0 []))" by simp
  have noEOF: "\<not> isEOFPlan (RootNode 10 (PhysicalScanNode 30 (OtherExpr 2 []) Random)
      (OtherExpr 0 []))" by simp
  have walk: "generateExplain exMap
      (RootNode 10 (PhysicalScanNode 30 (OtherExpr 2 []) Random) (OtherExpr 0 [])) [] =
     Inr [(kStage, BString kRootName), (kProj, BString ''<todo>''),
          (kCE, BString ''<todo>''), (kCost, BDouble (25 / 2)),
          (kInput, BObject
             [(kStage, BString kScanName), (kNodeId, BInt 3), (kDir, BString kRandom),
              (kProj, BString ''<todo>''), (kCE, BString ''<todo>'')])]"
    by (simp add: exMap_def)
  from explain_result_nonempty [OF root noEOF, of exMap] walk root noEOF
  show ?thesis by (simp add: explainResult_def)
qed

subsection \<open>C10: the EOF path looks up the Root only\<close>

text \<open>
  C10. For every tree of the canonical empty-result shape, with its Root at the address
  \<open>a\<close>: \<^verbatim>\<open>explain\<close> returns the EOF document when the store has a record for \<open>a\<close> and
  aborts with the missing-property assertion 8075605 when it has none; it aborts in no
  other case, and the outcome is that of the store cut down to the record of the Root,
  in which the Evaluation, Limit-Skip and CoScan nodes have no record.
\<close>

theorem explain_EOF_root_only:
  "canonicalEOF t \<Longrightarrow> castNode t = Some a \<Longrightarrow>
     explain nodeMap t =
       (case nodeMap a of
          None \<Rightarrow> Inl (TAssert 8075605 missingProps)
        | Some props \<Rightarrow> Inr [(kStage, BString kEOF), (kNodeId, BInt (planNodeId props))]) \<and>
     ((\<exists>e. explain nodeMap t = Inl e) \<longleftrightarrow> nodeMap a = None) \<and>
     explain (nodeMap |` {a}) t = explain nodeMap t"
proof -
  assume canon: "canonicalEOF t" and root: "castNode t = Some a"
  from canon have eof: "isEOFPlan t"
    by (simp add: isEOFPlan_isRootNode canonicalEOF_isRootNode)
  show ?thesis
    by (cases "nodeMap a") (simp_all add: explain_EOF [OF eof] generateEOFPlan_def root)
qed

theorem explain_EOF_root_only_witness:
  "canonicalEOF eofTree \<and> castNode eofTree = Some 10 \<and>
   rootOnlyMap 20 = None \<and> rootOnlyMap 30 = None \<and> rootOnlyMap 40 = None \<and>
   explain rootOnlyMap eofTree = Inr [(kStage, BString kEOF), (kNodeId, BInt 1)] \<and>
   explain Map.empty eofTree = Inl (TAssert 8075605 missingProps)"
proof -
  have canon: "canonicalEOF eofTree" by (simp add: eofTree_def)
  have root: "castNode eofTree = Some 10" by (simp add: eofTree_def)
  from explain_EOF_root_only [OF canon root, of rootOnlyMap]
    explain_EOF_root_only [OF canon root, of Map.empty] canon root
  show ?thesis by (simp add: rootOnlyMap_def)
qed

end
